theory Spec2Isabelle
  imports Main "HOL-Library.Sublist"
begin

section \<open>Program structure composition (server/routers/programs.py)\<close>

text \<open>
  A shallow embedding of the program-structure routes of the handbook server:
  the subgroup resolver, the structure builder, the gen-ed resolver, the course-list
  extractor and the prerequisite-graph builder. Python dictionaries keep insertion
  order, so a dictionary is an association list with distinct keys; an exception is a
  value of type \<open>error\<close> on the left of a sum.
\<close>

subsection \<open>Errors\<close>

datatype error =
    HTTPException nat string
  | KeyError string
  | IndexError
  | TypeError
  | AttributeError
  | ReError
  | ManualFixError

subsection \<open>Strings\<close>

text \<open>Python's \<^verbatim>\<open>sub in s\<close> on strings: \<open>sub\<close> occurs as a contiguous block of \<open>s\<close>.\<close>

fun str_in :: "string \<Rightarrow> string \<Rightarrow> bool" where
  "str_in sub [] = (sub = [])"
| "str_in sub (c # cs) = (prefix sub (c # cs) \<or> str_in sub cs)"

text \<open>\<^verbatim>\<open>s.endswith(c)\<close> for a one-character suffix.\<close>

definition endswith :: "string \<Rightarrow> char \<Rightarrow> bool" where
  "endswith s c = (s \<noteq> [] \<and> last s = c)"

text \<open>\<^verbatim>\<open>s.split(sep)\<close> for a one-character separator; \<open>acc\<close> holds the current
  piece, reversed.\<close>

fun split_char :: "char \<Rightarrow> string \<Rightarrow> string \<Rightarrow> string list" where
  "split_char sep acc [] = [rev acc]"
| "split_char sep acc (c # cs) =
     (if c = sep then rev acc # split_char sep [] cs else split_char sep (c # acc) cs)"

text \<open>\<^verbatim>\<open>s.split(" or ")\<close>: scan from the left, cut at every occurrence of the separator
  and continue after it.\<close>

fun split_or :: "string \<Rightarrow> string \<Rightarrow> string list" where
  "split_or acc [] = [rev acc]"
| "split_or acc (c # cs) =
     (if prefix '' or '' (c # cs) then rev acc # split_or [] (drop 3 cs)
      else split_or (c # acc) cs)"

text \<open>\<^verbatim>\<open>s.lower()\<close> on the ASCII letters.\<close>

definition lower_char :: "char \<Rightarrow> char" where
  "lower_char c =
     (if 65 \<le> (of_char c :: nat) \<and> (of_char c :: nat) \<le> 90
      then char_of ((of_char c :: nat) + 32) else c)"

definition lower :: "string \<Rightarrow> string" where
  "lower s = map lower_char s"

definition is_upper :: "char \<Rightarrow> bool" where
  "is_upper c = (65 \<le> (of_char c :: nat) \<and> (of_char c :: nat) \<le> 90)"

definition is_digit :: "char \<Rightarrow> bool" where
  "is_digit c = (48 \<le> (of_char c :: nat) \<and> (of_char c :: nat) \<le> 57)"

text \<open>\<^verbatim>\<open>re.match(r"[A-Z]{4}[0-9]{4}", s)\<close>: the pattern is matched at the start of the
  string only, so any continuation after the eight characters is accepted.\<close>

definition re_match_code :: "string \<Rightarrow> bool" where
  "re_match_code s =
     (8 \<le> length s \<and> list_all is_upper (take 4 s) \<and> list_all is_digit (take 4 (drop 4 s)))"

subsection \<open>Dictionaries\<close>

text \<open>\<^verbatim>\<open>d[k] = v\<close>: an existing key keeps its position, a new key goes to the end.\<close>

primrec dict_set :: "'k \<Rightarrow> 'v \<Rightarrow> ('k \<times> 'v) list \<Rightarrow> ('k \<times> 'v) list" where
  "dict_set k v [] = [(k, v)]"
| "dict_set k v (p # ps) = (if fst p = k then (k, v) # ps else p # dict_set k v ps)"

text \<open>A dictionary built by inserting the items one after the other, as a dictionary
  comprehension does; \<open>dict_union d e\<close> is \<^verbatim>\<open>d | e\<close>.\<close>

definition dict_union :: "('k \<times> 'v) list \<Rightarrow> ('k \<times> 'v) list \<Rightarrow> ('k \<times> 'v) list" where
  "dict_union d e = foldl (\<lambda>acc kv. dict_set (fst kv) (snd kv) acc) d e"

definition dict_of_items :: "('k \<times> 'v) list \<Rightarrow> ('k \<times> 'v) list" where
  "dict_of_items items = dict_union [] items"

definition keys :: "('k \<times> 'v) list \<Rightarrow> 'k list" where
  "keys d = map fst d"

text \<open>\<^verbatim>\<open>d[k]\<close>, which raises \<^verbatim>\<open>KeyError\<close> on a missing key.\<close>

definition dict_get :: "(string \<times> 'v) list \<Rightarrow> string \<Rightarrow> error + 'v" where
  "dict_get d k = (case map_of d k of None \<Rightarrow> Inl (KeyError k) | Some v \<Rightarrow> Inr v)"

subsection \<open>The prerequisite graph\<close>

text \<open>
  A proto-edge is \<^verbatim>\<open>None\<close> or a dictionary with the keys \<^verbatim>\<open>original\<close> and
  \<^verbatim>\<open>courses\<close>. A field is \<open>None\<close> when the key is missing; the value under
  \<^verbatim>\<open>courses\<close> is \<^verbatim>\<open>None\<close> (\<open>Some None\<close>) or a list.
\<close>

record proto_edge =
  pe_original :: "string option"
  pe_courses :: "string list option option"

record edge =
  source :: string
  target :: string

text \<open>\<^verbatim>\<open>not proto_edge\<close>: the value is \<^verbatim>\<open>None\<close> or the empty dictionary.\<close>

definition pe_falsy :: "proto_edge option \<Rightarrow> bool" where
  "pe_falsy pe = (case pe of None \<Rightarrow> True | Some d \<Rightarrow> pe_original d = None \<and> pe_courses d = None)"

text \<open>The inner loop: one edge per course; \<^verbatim>\<open>proto_edge["original"]\<close> is looked up at
  every append.\<close>

fun append_edges :: "proto_edge \<Rightarrow> string list \<Rightarrow> edge list \<Rightarrow> error + edge list" where
  "append_edges d [] edges = Inr edges"
| "append_edges d (course # cs) edges =
     (case pe_original d of
        None \<Rightarrow> Inl (KeyError ''original'')
      | Some orig \<Rightarrow> append_edges d cs (edges @ [\<lparr>source = course, target = orig\<rparr>]))"

fun proto_edges_loop :: "proto_edge option list \<Rightarrow> edge list \<Rightarrow> error + edge list" where
  "proto_edges_loop [] edges = Inr edges"
| "proto_edges_loop (pe # pes) edges =
     (if pe_falsy pe then proto_edges_loop pes edges
      else case pe of
        None \<Rightarrow> proto_edges_loop pes edges
      | Some d \<Rightarrow>
         (case pe_courses d of
            None \<Rightarrow> Inl (KeyError ''courses'')
          | Some None \<Rightarrow> proto_edges_loop pes edges
          | Some (Some []) \<Rightarrow> proto_edges_loop pes edges
          | Some (Some (c # cs)) \<Rightarrow>
             (case append_edges d (c # cs) edges of
                Inl e \<Rightarrow> Inl e
              | Inr edges' \<Rightarrow> proto_edges_loop pes edges')))"

definition proto_edges_to_edges :: "proto_edge option list \<Rightarrow> error + edge list" where
  "proto_edges_to_edges proto_edges = proto_edges_loop proto_edges []"

definition prune_edges :: "edge list \<Rightarrow> string list \<Rightarrow> edge list" where
  "prune_edges edges cs = filter (\<lambda>e. source e \<in> set cs \<and> target e \<in> set cs) edges"

subsection \<open>Records of the store and of the structure\<close>

text \<open>A description is a string, or a list of strings for a disjunctive object.\<close>

datatype description = Str string | StrList "string list"

type_synonym courses_dict = "(string \<times> description) list"

text \<open>
  A curriculum container (\<^verbatim>\<open>ProgramContainer | CourseContainer\<close>) is a dictionary read
  with \<^verbatim>\<open>get\<close>; a field is \<open>None\<close> when its key is missing. \<open>type_tag\<close> is the key
  \<^verbatim>\<open>type\<close>, \<open>course_specs\<close> the key \<^verbatim>\<open>courses\<close>.
\<close>

record container =
  title :: "string option"
  type_tag :: "string option"
  credits_to_complete :: "int option"
  course_specs :: "(string \<times> description) list option"
  container_notes :: "string option"

record container_content =
  UOC :: int
  cc_courses :: courses_dict
  cc_type :: string
  cc_notes :: string

record structure_container =
  name :: string
  content :: "(string \<times> container_content) list"

type_synonym structure_dict = "(string \<times> structure_container) list"

record specialisation =
  spn_name :: string
  curriculum :: "container list"

text \<open>\<open>non_spec_data\<close> is \<^verbatim>\<open>program['components']['non_spec_data']\<close>, \<open>None\<close> when one
  of the two keys is missing.\<close>

record program =
  program_UOC :: int
  non_spec_data :: "container list option"

text \<open>
  What the routes read from outside: the collections of the database, the gen-ed file,
  the regular-expression engine, the order in which Python iterates a set, and the
  manual fixes. \<open>coursesCOL_regex p\<close> lists code and title of the documents that
  \<^verbatim>\<open>coursesCOL.find({"code": {"$regex": p}})\<close> returns; \<open>re_compile p\<close> says whether the
  pattern compiles; a set is iterated in the order of the keys \<open>set_order\<close>.
\<close>

record env =
  specialisationsCOL :: "string \<Rightarrow> specialisation option"
  programsCOL :: "string \<Rightarrow> program option"
  genedPureRaw :: "string \<Rightarrow> (string \<times> string) list option"
  coursesCOL_regex :: "string \<Rightarrow> (string \<times> string) list"
  archivesDB_regex :: "nat \<Rightarrow> string \<Rightarrow> (string \<times> string) list"
  ARCHIVED_YEARS :: "nat list"
  re_compile :: "string \<Rightarrow> bool"
  set_order :: "string \<Rightarrow> nat"
  apply_manual_fixes :: "structure_dict \<Rightarrow> string \<Rightarrow> error + structure_dict"

subsection \<open>The subgroup resolver\<close>

text \<open>The loop over the archived years of \<^verbatim>\<open>regex_search\<close>: the first year with a result
  ends it.\<close>

fun first_found :: "(string \<times> string) list list \<Rightarrow> (string \<times> string) list" where
  "first_found [] = []"
| "first_found (r # rs) = (if r \<noteq> [] then r else first_found rs)"

definition regex_search :: "env \<Rightarrow> string \<Rightarrow> error + courses_dict" where
  "regex_search E search_string =
     (if \<not> re_compile E search_string then Inl ReError
      else
        let found = coursesCOL_regex E search_string;
            found' = (if found = []
                      then first_found (map (\<lambda>year. archivesDB_regex E year search_string)
                                          (rev (sort (ARCHIVED_YEARS E))))
                      else found)
        in Inr (dict_of_items (map (\<lambda>c. (fst c, Str (snd c))) found')))"

text \<open>\<^verbatim>\<open>{c: description[index] for index, c in enumerate(codes)}\<close>.\<close>

fun zip_descriptions :: "string list \<Rightarrow> nat \<Rightarrow> string list \<Rightarrow> courses_dict \<Rightarrow> error + courses_dict" where
  "zip_descriptions ds index [] acc = Inr acc"
| "zip_descriptions ds index (c # cs) acc =
     (if index < length ds
      then zip_descriptions ds (Suc index) cs (dict_set c (Str (ds ! index)) acc)
      else Inl IndexError)"

fun convert_subgroup_object_to_courses_dict ::
  "env \<Rightarrow> string \<Rightarrow> description \<Rightarrow> error + courses_dict" where
  "convert_subgroup_object_to_courses_dict E object (StrList ds) =
     (if str_in '' or '' object then zip_descriptions ds 0 (split_or [] object) []
      else if \<not> re_match_code object then regex_search E (''^'' @ object)
      else Inr [(object, StrList ds)])"
| "convert_subgroup_object_to_courses_dict E object (Str d) =
     (if \<not> re_match_code object then regex_search E (''^'' @ object)
      else Inr [(object, Str d)])"

subsection \<open>The structure builder\<close>

text \<open>The \<^verbatim>\<open>functools.reduce\<close> of \<^verbatim>\<open>add_subgroup_container\<close> over the items of the
  container's courses.\<close>

fun reduce_courses ::
  "env \<Rightarrow> string list \<Rightarrow> (string \<times> description) list \<Rightarrow> courses_dict \<Rightarrow> error + courses_dict" where
  "reduce_courses E exceptions [] rest = Inr rest"
| "reduce_courses E exceptions (current # items) rest =
     (case convert_subgroup_object_to_courses_dict E (fst current) (snd current) of
        Inl e \<Rightarrow> Inl e
      | Inr m \<Rightarrow>
          reduce_courses E exceptions items
            (dict_union rest (dict_of_items (filter (\<lambda>cd. fst cd \<notin> set exceptions) m))))"

text \<open>The right-hand side of the assignment is evaluated before
  \<^verbatim>\<open>structure[type]\<close> is looked up.\<close>

definition add_subgroup_container ::
  "env \<Rightarrow> structure_dict \<Rightarrow> string \<Rightarrow> container \<Rightarrow> string list \<Rightarrow> error + structure_dict \<times> string list" where
  "add_subgroup_container E structure type c exceptions =
     (let title0 = (case title c of None \<Rightarrow> [] | Some t \<Rightarrow> t);
          title1 = (if type_tag c = Some ''gened'' then ''General Education'' else title0);
          type1 = (case type_tag c of
                     None \<Rightarrow> type
                   | Some ct \<Rightarrow> if str_in ''rule'' ct then ''Rules'' else type)
      in case reduce_courses E exceptions
                (case course_specs c of None \<Rightarrow> [] | Some items \<Rightarrow> items) [] of
           Inl e \<Rightarrow> Inl e
         | Inr cs \<Rightarrow>
            (case map_of structure type1 of
               None \<Rightarrow> Inl (KeyError type1)
             | Some g \<Rightarrow>
                 let cc = \<lparr>UOC = (case credits_to_complete c of None \<Rightarrow> 0 | Some n \<Rightarrow> n),
                           cc_courses = cs,
                           cc_type = (case type_tag c of None \<Rightarrow> [] | Some t \<Rightarrow> t),
                           cc_notes = (if type1 = ''Rules''
                                       then (case container_notes c of None \<Rightarrow> [] | Some n \<Rightarrow> n)
                                       else [])\<rparr>
                 in Inr (dict_set type1 (g\<lparr>content := dict_set title1 cc (content g)\<rparr>) structure,
                         keys cs)))"

text \<open>The first loop of \<^verbatim>\<open>add_specialisation\<close>, over the containers with \<^verbatim>\<open>Core\<close> in
  the title: the courses a container added extend the exceptions.\<close>

fun add_cores ::
  "env \<Rightarrow> string \<Rightarrow> container list \<Rightarrow> structure_dict \<Rightarrow> string list \<Rightarrow> error + structure_dict \<times> string list" where
  "add_cores E type [] structure exceptions = Inr (structure, exceptions)"
| "add_cores E type (a # rest) structure exceptions =
     (case title a of
        None \<Rightarrow> Inl (KeyError ''title'')
      | Some t \<Rightarrow>
          if str_in ''Core'' t
          then (case add_subgroup_container E structure type a exceptions of
                  Inl e \<Rightarrow> Inl e
                | Inr r \<Rightarrow> add_cores E type rest (fst r) (exceptions @ snd r))
          else add_cores E type rest structure exceptions)"

text \<open>The second loop, over the other containers: the returned courses are dropped.\<close>

fun add_others ::
  "env \<Rightarrow> string \<Rightarrow> container list \<Rightarrow> structure_dict \<Rightarrow> string list \<Rightarrow> error + structure_dict" where
  "add_others E type [] structure exceptions = Inr structure"
| "add_others E type (c # rest) structure exceptions =
     (case title c of
        None \<Rightarrow> Inl (KeyError ''title'')
      | Some t \<Rightarrow>
          if \<not> str_in ''Core'' t
          then (case add_subgroup_container E structure type c exceptions of
                  Inl e \<Rightarrow> Inl e
                | Inr r \<Rightarrow> add_others E type rest (fst r) exceptions)
          else add_others E type rest structure exceptions)"

definition spec_type :: "string \<Rightarrow> string" where
  "spec_type code =
     (if endswith code CHR ''1'' then ''Major''
      else if endswith code CHR ''2'' then ''Minor''
      else ''Honours'') @ '' - '' @ code"

definition add_specialisation :: "env \<Rightarrow> structure_dict \<Rightarrow> string \<Rightarrow> error + structure_dict" where
  "add_specialisation E structure code =
     (let type = spec_type code
      in case specialisationsCOL E code of
           None \<Rightarrow> Inl (HTTPException 400 (code @ '' of type '' @ type @ '' not found''))
         | Some spnResult \<Rightarrow>
            (let structure1 = dict_set type \<lparr>name = spn_name spnResult, content = []\<rparr> structure
             in case add_cores E type (curriculum spnResult) structure1 [] of
                  Inl e \<Rightarrow> Inl e
                | Inr r \<Rightarrow> add_others E type (curriculum spnResult) (fst r) (snd r)))"

fun add_each_specialisation :: "env \<Rightarrow> string list \<Rightarrow> structure_dict \<Rightarrow> error + structure_dict" where
  "add_each_specialisation E [] structure = Inr structure"
| "add_each_specialisation E (m # specs) structure =
     (case add_specialisation E structure m of
        Inl e \<Rightarrow> Inl e
      | Inr structure' \<Rightarrow> add_each_specialisation E specs structure')"

definition add_specialisations :: "env \<Rightarrow> structure_dict \<Rightarrow> string option \<Rightarrow> error + structure_dict" where
  "add_specialisations E structure spec =
     (case spec of
        None \<Rightarrow> Inr structure
      | Some sp \<Rightarrow>
          if sp = [] then Inr structure
          else add_each_specialisation E
                 (if CHR ''+'' \<in> set sp then split_char CHR ''+'' [] sp else [sp]) structure)"

definition add_program_code_details :: "env \<Rightarrow> structure_dict \<Rightarrow> string \<Rightarrow> error + structure_dict \<times> int" where
  "add_program_code_details E structure programCode =
     (case programsCOL E programCode of
        None \<Rightarrow> Inl (HTTPException 400 ''Program code was not found'')
      | Some programsResult \<Rightarrow>
          Inr (dict_set ''Rules'' \<lparr>name = ''General Program Rules'', content = []\<rparr>
                 (dict_set ''General'' \<lparr>name = ''General Program Requirements'', content = []\<rparr>
                    structure),
               program_UOC programsResult))"

subsection \<open>The gen-ed resolver\<close>

text \<open>\<^verbatim>\<open>get_gen_eds(programCode)["courses"]\<close>: the entry of the gen-ed file, a
  \<^verbatim>\<open>KeyError\<close> when the file has none for the program.\<close>

definition get_gen_eds :: "env \<Rightarrow> string \<Rightarrow> error + (string \<times> string) list" where
  "get_gen_eds E programCode =
     (case genedPureRaw E programCode of
        None \<Rightarrow> Inl (KeyError programCode)
      | Some all_geneds \<Rightarrow> Inr all_geneds)"

text \<open>The courses of every container with \<^verbatim>\<open>core\<close> in its lowered title, in every
  group with \<^verbatim>\<open>Major\<close> or \<^verbatim>\<open>Honours\<close> in its key.\<close>

definition core_courses :: "structure_dict \<Rightarrow> string list" where
  "core_courses structure =
     concat (map (\<lambda>spec. concat (map (\<lambda>sub. keys (cc_courses (snd sub)))
                                    (filter (\<lambda>sub. str_in ''core'' (lower (fst sub)))
                                            (content (snd spec)))))
                 (filter (\<lambda>spec. str_in ''Major'' (fst spec) \<or> str_in ''Honours'' (fst spec))
                         structure))"

text \<open>\<^verbatim>\<open>{course: geneds["courses"][course] for course in gen_ed_courses}\<close>.\<close>

fun gened_dict :: "(string \<times> string) list \<Rightarrow> string list \<Rightarrow> courses_dict \<Rightarrow> error + courses_dict" where
  "gened_dict geneds [] acc = Inr acc"
| "gened_dict geneds (course # cs) acc =
     (case dict_get geneds course of
        Inl e \<Rightarrow> Inl e
      | Inr t \<Rightarrow> gened_dict geneds cs (dict_set course (Str t) acc))"

text \<open>\<^verbatim>\<open>item["courses"] = cs\<close> for the item
  \<^verbatim>\<open>structure["General"]["content"]["General Education"]\<close>, where \<open>g\<close> is the group
  and \<open>item\<close> the container found there: the structure with the courses of that item
  replaced.\<close>

definition set_item_courses ::
  "structure_dict \<Rightarrow> structure_container \<Rightarrow> container_content \<Rightarrow> courses_dict \<Rightarrow> structure_dict" where
  "set_item_courses structure g item cs =
     dict_set ''General''
       (g\<lparr>content := dict_set ''General Education'' (item\<lparr>cc_courses := cs\<rparr>) (content g)\<rparr>)
       structure"

text \<open>
  The function changes the structure in place before it can raise, and its caller
  catches \<^verbatim>\<open>KeyError\<close>: the result is the structure as it is left, with the error or
  the returned list. The set difference is listed in the order of \<open>set_order\<close>.
\<close>

definition add_geneds_courses ::
  "env \<Rightarrow> string \<Rightarrow> structure_dict \<Rightarrow> container \<Rightarrow> structure_dict \<times> (error + string list)" where
  "add_geneds_courses E programCode structure c =
     (if type_tag c \<noteq> Some ''gened'' then (structure, Inr [])
      else case map_of structure ''General'' of
        None \<Rightarrow> (structure, Inl (KeyError ''General''))
      | Some g \<Rightarrow>
         (case map_of (content g) ''General Education'' of
            None \<Rightarrow> (structure, Inl (KeyError ''General Education''))
          | Some item \<Rightarrow>
             (let structure1 = set_item_courses structure g item []
              in if course_specs c = None
                 then (case get_gen_eds E programCode of
                         Inl e \<Rightarrow> (structure1, Inl e)
                       | Inr geneds \<Rightarrow>
                          (let gen_ed_courses =
                                 sort_key (set_order E)
                                   (remdups (filter (\<lambda>k. k \<notin> set (core_courses structure1))
                                                    (keys geneds)))
                           in case gened_dict geneds gen_ed_courses [] of
                                Inl e \<Rightarrow> (structure1, Inl e)
                              | Inr cs \<Rightarrow> (set_item_courses structure g item cs, Inr (keys cs))))
                 else (structure1, Inr []))))"

text \<open>\<^verbatim>\<open>with suppress(KeyError)\<close> around the loop: a \<^verbatim>\<open>KeyError\<close> ends the loop and the
  structure is returned as it is; any other exception leaves the function.\<close>

definition suppress_KeyError :: "error \<Rightarrow> structure_dict \<Rightarrow> error + structure_dict" where
  "suppress_KeyError e structure = (case e of KeyError k \<Rightarrow> Inr structure | _ \<Rightarrow> Inl e)"

fun geneds_loop :: "env \<Rightarrow> string \<Rightarrow> container list \<Rightarrow> structure_dict \<Rightarrow> error + structure_dict" where
  "geneds_loop E programCode [] structure = Inr structure"
| "geneds_loop E programCode (c # rest) structure =
     (case add_subgroup_container E structure ''General'' c [] of
        Inl e \<Rightarrow> suppress_KeyError e structure
      | Inr r \<Rightarrow>
          if type_tag c = Some ''gened''
          then (case add_geneds_courses E programCode (fst r) c of
                  (structure2, Inl e) \<Rightarrow> suppress_KeyError e structure2
                | (structure2, Inr added) \<Rightarrow> geneds_loop E programCode rest structure2)
          else geneds_loop E programCode rest (fst r))"

definition add_geneds_to_structure :: "env \<Rightarrow> structure_dict \<Rightarrow> string \<Rightarrow> error + structure_dict" where
  "add_geneds_to_structure E structure programCode =
     (case programsCOL E programCode of
        None \<Rightarrow> Inl (HTTPException 400 ''Program code was not found'')
      | Some programsResult \<Rightarrow>
         (case non_spec_data programsResult of
            None \<Rightarrow> Inr structure
          | Some containers \<Rightarrow> geneds_loop E programCode containers structure))"

subsection \<open>The course-list extractor\<close>

text \<open>The values the walk can meet: strings, integers, lists and dictionaries.\<close>

datatype pyval = PStr string | PInt int | PList "pyval list" | PDict "(string \<times> pyval) list"

text \<open>\<^verbatim>\<open>"rule" in x\<close>: a substring of a string, an element of a list, a key of a
  dictionary, a \<^verbatim>\<open>TypeError\<close> on an integer.\<close>

fun rule_in :: "pyval \<Rightarrow> error + bool" where
  "rule_in (PStr s) = Inr (str_in ''rule'' s)"
| "rule_in (PList xs) = Inr (PStr ''rule'' \<in> set xs)"
| "rule_in (PDict kvs) = Inr (''rule'' \<in> set (keys kvs))"
| "rule_in (PInt n) = Inl TypeError"

text \<open>Whether the loop body ends at \<^verbatim>\<open>continue\<close>; a missing key \<^verbatim>\<open>type\<close> raises a
  \<^verbatim>\<open>KeyError\<close> that is suppressed, and the body goes on.\<close>

fun skipped :: "pyval \<Rightarrow> error + bool" where
  "skipped (PDict kvs) = (case map_of kvs ''type'' of None \<Rightarrow> Inr False | Some t \<Rightarrow> rule_in t)"
| "skipped v = Inr True"

fun dict_keys :: "pyval \<Rightarrow> string list" where
  "dict_keys (PDict kvs) = keys kvs"
| "dict_keys v = []"

text \<open>\<^verbatim>\<open>__recursive_course_search\<close>, with the list \<^verbatim>\<open>courses\<close> of the enclosing function
  passed along.\<close>

fun recursive_course_search :: "pyval \<Rightarrow> string list \<Rightarrow> error + string list"
  and search_items :: "(string \<times> pyval) list \<Rightarrow> string list \<Rightarrow> error + string list" where
  "recursive_course_search (PDict kvs) courses = search_items kvs courses"
| "recursive_course_search (PList xs) courses = Inl AttributeError"
| "recursive_course_search (PStr s) courses = Inr courses"
| "recursive_course_search (PInt n) courses = Inr courses"
| "search_items [] courses = Inr courses"
| "search_items ((k, v) # rest) courses =
     (case skipped v of
        Inl e \<Rightarrow> Inl e
      | Inr True \<Rightarrow> search_items rest courses
      | Inr False \<Rightarrow>
         (case recursive_course_search v
                 (if str_in ''courses'' k then courses @ dict_keys v else courses) of
            Inl e \<Rightarrow> Inl e
          | Inr courses' \<Rightarrow> search_items rest courses'))"

definition course_list_from_structure :: "pyval \<Rightarrow> error + string list" where
  "course_list_from_structure structure = recursive_course_search structure []"

text \<open>A structure as the Python value it is: the keys of a container content in the
  order \<^verbatim>\<open>add_subgroup_container\<close> writes them.\<close>

fun py_description :: "description \<Rightarrow> pyval" where
  "py_description (Str s) = PStr s"
| "py_description (StrList ds) = PList (map PStr ds)"

definition py_content :: "container_content \<Rightarrow> pyval" where
  "py_content cc =
     PDict [(''UOC'', PInt (UOC cc)),
            (''courses'', PDict (map (\<lambda>cd. (fst cd, py_description (snd cd))) (cc_courses cc))),
            (''type'', PStr (cc_type cc)),
            (''notes'', PStr (cc_notes cc))]"

definition py_group :: "structure_container \<Rightarrow> pyval" where
  "py_group g =
     PDict [(''name'', PStr (name g)),
            (''content'', PDict (map (\<lambda>tc. (fst tc, py_content (snd tc))) (content g)))]"

definition py_structure :: "structure_dict \<Rightarrow> pyval" where
  "py_structure structure = PDict (map (\<lambda>kg. (fst kg, py_group (snd kg))) structure)"

subsection \<open>The routes\<close>

definition get_structure :: "env \<Rightarrow> string \<Rightarrow> string option \<Rightarrow> error + structure_dict \<times> int" where
  "get_structure E programCode spec =
     (case add_specialisations E [] spec of
        Inl e \<Rightarrow> Inl e
      | Inr structure1 \<Rightarrow>
         (case add_program_code_details E structure1 programCode of
            Inl e \<Rightarrow> Inl e
          | Inr r \<Rightarrow>
             (case add_geneds_to_structure E (fst r) programCode of
                Inl e \<Rightarrow> Inl e
              | Inr structure3 \<Rightarrow>
                 (case apply_manual_fixes E structure3 programCode of
                    Inl e \<Rightarrow> Inl e
                  | Inr structure4 \<Rightarrow> Inr (structure4, snd r)))))"

definition get_structure_course_list :: "env \<Rightarrow> string \<Rightarrow> string option \<Rightarrow> error + string list" where
  "get_structure_course_list E programCode spec =
     (case add_specialisations E [] spec of
        Inl e \<Rightarrow> Inl e
      | Inr structure1 \<Rightarrow>
         (case add_program_code_details E structure1 programCode of
            Inl e \<Rightarrow> Inl e
          | Inr r \<Rightarrow>
             (case apply_manual_fixes E (fst r) programCode of
                Inl e \<Rightarrow> Inl e
              | Inr structure3 \<Rightarrow> course_list_from_structure (py_structure structure3))))"

subsection \<open>Definitions that follow the specification\<close>

text \<open>The edges the specification gives for one proto-edge: one edge per entry of a
  listed \<^verbatim>\<open>courses\<close>, from the prerequisite to the original; none otherwise.\<close>

definition buildEdges_spec :: "proto_edge option \<Rightarrow> edge list" where
  "buildEdges_spec pe =
     (case pe of
        None \<Rightarrow> []
      | Some d \<Rightarrow>
         (case (pe_original d, pe_courses d) of
            (Some orig, Some (Some cs)) \<Rightarrow> map (\<lambda>c. \<lparr>source = c, target = orig\<rparr>) cs
          | _ \<Rightarrow> []))"

text \<open>The documented shape of a proto-edge, \<^verbatim>\<open>{ original: str, courses: List[str] }\<close>:
  both keys are there (the courses may be \<^verbatim>\<open>None\<close>), or the proto-edge itself is
  \<^verbatim>\<open>None\<close> or empty.\<close>

definition pe_shape :: "proto_edge option \<Rightarrow> bool" where
  "pe_shape pe =
     (case pe of
        None \<Rightarrow> True
      | Some d \<Rightarrow> (pe_original d = None \<and> pe_courses d = None) \<or>
                  (pe_original d \<noteq> None \<and> pe_courses d \<noteq> None))"

text \<open>Every course code the proto-edges mention: each original and each member of each
  courses list.\<close>

definition mentioned :: "proto_edge option list \<Rightarrow> string list" where
  "mentioned pes =
     concat (map (\<lambda>pe. case pe of
                None \<Rightarrow> []
              | Some d \<Rightarrow> (case pe_original d of None \<Rightarrow> [] | Some orig \<Rightarrow> [orig]) @
                          (case pe_courses d of Some (Some cs) \<Rightarrow> cs | _ \<Rightarrow> [])) pes)"

definition is_list :: "description \<Rightarrow> bool" where
  "is_list d = (case d of StrList ds \<Rightarrow> True | Str s \<Rightarrow> False)"

text \<open>
  The extraction as the specification words it: walk every pair of a mapping in
  insertion order, leave out a mapping value whose \<^verbatim>\<open>type\<close> field contains
  \<^verbatim>\<open>rule\<close>, and at a key that contains \<^verbatim>\<open>courses\<close> take the keys of the value
  without walking into it.
\<close>

fun has_rule :: "pyval \<Rightarrow> bool" where
  "has_rule (PStr s) = str_in ''rule'' s"
| "has_rule (PList xs) = (PStr ''rule'' \<in> set xs)"
| "has_rule (PDict kvs) = (''rule'' \<in> set (keys kvs))"
| "has_rule (PInt n) = False"

fun rule_typed :: "pyval \<Rightarrow> bool" where
  "rule_typed (PDict kvs) = (case map_of kvs ''type'' of None \<Rightarrow> False | Some t \<Rightarrow> has_rule t)"
| "rule_typed v = False"

fun is_dict :: "pyval \<Rightarrow> bool" where
  "is_dict (PDict kvs) = True"
| "is_dict v = False"

fun extract_spec :: "pyval \<Rightarrow> string list"
  and extract_spec_items :: "(string \<times> pyval) list \<Rightarrow> string list" where
  "extract_spec (PDict kvs) = extract_spec_items kvs"
| "extract_spec (PList xs) = []"
| "extract_spec (PStr s) = []"
| "extract_spec (PInt n) = []"
| "extract_spec_items [] = []"
| "extract_spec_items ((k, v) # rest) =
     (if is_dict v \<and> \<not> rule_typed v
      then (if str_in ''courses'' k then dict_keys v else extract_spec v)
      else []) @ extract_spec_items rest"

text \<open>The same walk, except that at a key that contains \<^verbatim>\<open>courses\<close> the keys of the
  value are taken and the value is walked as well.\<close>

fun course_walk :: "pyval \<Rightarrow> string list"
  and course_walk_items :: "(string \<times> pyval) list \<Rightarrow> string list" where
  "course_walk (PDict kvs) = course_walk_items kvs"
| "course_walk (PList xs) = []"
| "course_walk (PStr s) = []"
| "course_walk (PInt n) = []"
| "course_walk_items [] = []"
| "course_walk_items ((k, v) # rest) =
     (if is_dict v \<and> \<not> rule_typed v
      then (if str_in ''courses'' k then dict_keys v else []) @ course_walk v
      else []) @ course_walk_items rest"

text \<open>No dictionary has an integer under the key \<^verbatim>\<open>type\<close>, on which
  \<^verbatim>\<open>"rule" in\<close> would raise.\<close>

fun types_ok :: "pyval \<Rightarrow> bool"
  and types_ok_items :: "(string \<times> pyval) list \<Rightarrow> bool" where
  "types_ok (PDict kvs) =
     ((case map_of kvs ''type'' of Some (PInt n) \<Rightarrow> False | _ \<Rightarrow> True) \<and> types_ok_items kvs)"
| "types_ok (PList xs) = True"
| "types_ok (PStr s) = True"
| "types_ok (PInt n) = True"
| "types_ok_items [] = True"
| "types_ok_items ((k, v) # rest) = (types_ok v \<and> types_ok_items rest)"

subsection \<open>Definitions for the course-list route\<close>

text \<open>The field names of a group and of a container content, which the extractor
  emits at a group key or a title that contains \<^verbatim>\<open>courses\<close>.\<close>

definition field_names :: "string list" where
  "field_names = [''name'', ''content'', ''UOC'', ''courses'', ''type'', ''notes'']"

text \<open>Every course code under some container of the structure.\<close>

definition group_courses :: "structure_container \<Rightarrow> string list" where
  "group_courses g = concat (map (\<lambda>tc. keys (cc_courses (snd tc))) (content g))"

definition all_courses :: "structure_dict \<Rightarrow> string list" where
  "all_courses structure = concat (map (\<lambda>kg. group_courses (snd kg)) structure)"

text \<open>The course codes the resolver yields for the items of a container, and for the
  containers of the specialisations a \<^verbatim>\<open>+\<close>-joined specification names.\<close>

definition resolved_courses :: "env \<Rightarrow> container \<Rightarrow> string list" where
  "resolved_courses E c =
     concat (map (\<lambda>item. case convert_subgroup_object_to_courses_dict E (fst item) (snd item) of
                           Inl e \<Rightarrow> []
                         | Inr m \<Rightarrow> keys m)
                 (case course_specs c of None \<Rightarrow> [] | Some items \<Rightarrow> items))"

definition spec_codes :: "string option \<Rightarrow> string list" where
  "spec_codes spec =
     (case spec of
        None \<Rightarrow> []
      | Some sp \<Rightarrow> if sp = [] then []
                   else if CHR ''+'' \<in> set sp then split_char CHR ''+'' [] sp else [sp])"

definition specialisation_courses :: "env \<Rightarrow> string option \<Rightarrow> string list" where
  "specialisation_courses E spec =
     concat (map (\<lambda>code. case specialisationsCOL E code of
                           None \<Rightarrow> []
                         | Some spn \<Rightarrow> concat (map (resolved_courses E) (curriculum spn)))
                 (spec_codes spec))"

text \<open>The manual fixes of a program put no course code into a structure that was not
  there.\<close>

definition fixes_add_no_course :: "env \<Rightarrow> string \<Rightarrow> bool" where
  "fixes_add_no_course E programCode =
     (\<forall>s s'. apply_manual_fixes E s programCode = Inr s' \<longrightarrow>
              set (all_courses s') \<subseteq> set (all_courses s))"

text \<open>The parts of \<^verbatim>\<open>add_subgroup_container\<close> by name: the items read, the title and
  the group the container is placed under, and the content written.\<close>

definition container_items :: "container \<Rightarrow> (string \<times> description) list" where
  "container_items c = (case course_specs c of None \<Rightarrow> [] | Some items \<Rightarrow> items)"

definition placed_title :: "container \<Rightarrow> string" where
  "placed_title c =
     (if type_tag c = Some ''gened'' then ''General Education''
      else case title c of None \<Rightarrow> [] | Some t \<Rightarrow> t)"

definition placed_type :: "string \<Rightarrow> container \<Rightarrow> string" where
  "placed_type type c =
     (case type_tag c of
        None \<Rightarrow> type
      | Some ct \<Rightarrow> if str_in ''rule'' ct then ''Rules'' else type)"

definition placed_content :: "container \<Rightarrow> string \<Rightarrow> courses_dict \<Rightarrow> container_content" where
  "placed_content c type1 cs =
     \<lparr>UOC = (case credits_to_complete c of None \<Rightarrow> 0 | Some n \<Rightarrow> n),
      cc_courses = cs,
      cc_type = (case type_tag c of None \<Rightarrow> [] | Some t \<Rightarrow> t),
      cc_notes = (if type1 = ''Rules''
                  then (case container_notes c of None \<Rightarrow> [] | Some n \<Rightarrow> n)
                  else [])\<rparr>"

subsection \<open>An example store\<close>

text \<open>
  A store with a specialisation whose two elective containers share a course, a
  specialisation with a rule container, a program whose gen-ed container lists no
  courses, and a program whose gen-ed container lists one.
\<close>

definition example_store :: env where
  "example_store =
     \<lparr>specialisationsCOL = (\<lambda>code.
        if code = ''COMPA1'' then
          Some \<lparr>spn_name = ''Computer Science'',
                curriculum =
                  [\<lparr>title = Some ''Electives A'', type_tag = Some ''elective'',
                    credits_to_complete = Some 6,
                    course_specs = Some [(''COMP1511'', Str ''Programming Fundamentals'')],
                    container_notes = None\<rparr>,
                   \<lparr>title = Some ''Core Courses'', type_tag = Some ''core'',
                    credits_to_complete = Some 12,
                    course_specs = Some [(''COMP1521'', Str ''Computer Systems''),
                                         (''COMP2521 or COMP2511'', StrList [''DSA'', ''OOP''])],
                    container_notes = None\<rparr>,
                   \<lparr>title = Some ''Electives B'', type_tag = Some ''elective'',
                    credits_to_complete = Some 6,
                    course_specs = Some [(''COMP1511'', Str ''Programming Fundamentals''),
                                         (''COMP1521'', Str ''Computer Systems'')],
                    container_notes = None\<rparr>]\<rparr>
        else if code = ''COMPR1'' then
          Some \<lparr>spn_name = ''Computing'',
                curriculum =
                  [\<lparr>title = Some ''Maturity Requirement'', type_tag = Some ''maturity_rule'',
                    credits_to_complete = None, course_specs = None,
                    container_notes = Some ''Level 1 before level 3''\<rparr>]\<rparr>
        else None),
      programsCOL = (\<lambda>code.
        if code = ''3778'' then
          Some \<lparr>program_UOC = 144,
                non_spec_data =
                  Some [\<lparr>title = Some ''Gen Ed'', type_tag = Some ''gened'',
                         credits_to_complete = Some 12, course_specs = None,
                         container_notes = None\<rparr>,
                        \<lparr>title = Some ''Limit'', type_tag = Some ''limit_rule'',
                         credits_to_complete = None, course_specs = None,
                         container_notes = Some ''At most 60 UOC of level 1''\<rparr>]\<rparr>
        else if code = ''3779'' then
          Some \<lparr>program_UOC = 144,
                non_spec_data =
                  Some [\<lparr>title = Some ''Gen Ed'', type_tag = Some ''gened'',
                         credits_to_complete = Some 12,
                         course_specs = Some [(''ARTS1010'', Str ''The Life of Words'')],
                         container_notes = None\<rparr>]\<rparr>
        else None),
      genedPureRaw = (\<lambda>code.
        if code = ''3778'' \<or> code = ''3779''
        then Some [(''ARTS1010'', ''The Life of Words''), (''COMP1521'', ''Computer Systems'')]
        else None),
      coursesCOL_regex = (\<lambda>p.
        if p = ''^COMP3''
        then [(''COMP3121'', ''Algorithms''), (''COMP3821'', ''Extended Algorithms'')]
        else []),
      archivesDB_regex = (\<lambda>year p. []),
      ARCHIVED_YEARS = [],
      re_compile = (\<lambda>p. True),
      set_order = (\<lambda>c. 0),
      apply_manual_fixes = (\<lambda>structure programCode. Inr structure)\<rparr>"

text \<open>A structure with a container whose title contains \<^verbatim>\<open>courses\<close>.\<close>

definition titled_courses :: structure_dict where
  "titled_courses =
     [(''Major - COMPA1'',
       \<lparr>name = ''Computer Science'',
        content = [(''Elective courses'',
                    \<lparr>UOC = 6, cc_courses = [(''COMP1511'', Str ''Programming Fundamentals'')],
                     cc_type = ''elective'', cc_notes = []\<rparr>)]\<rparr>)]"

section \<open>Properties\<close>

subsection \<open>The prerequisite graph\<close>

lemma buildEdges_spec_simps:
  "buildEdges_spec None = []"
  "buildEdges_spec (Some d) =
     (case (pe_original d, pe_courses d) of
        (Some orig, Some (Some cs)) \<Rightarrow> map (\<lambda>c. \<lparr>source = c, target = orig\<rparr>) cs
      | _ \<Rightarrow> [])"
  by (simp_all add: buildEdges_spec_def)

lemma append_edges_Some:
  "pe_original d = Some orig \<Longrightarrow>
   append_edges d cs edges = Inr (edges @ map (\<lambda>c. \<lparr>source = c, target = orig\<rparr>) cs)"
  by (induction cs arbitrary: edges) auto

lemma proto_edges_loop_shape:
  "\<forall>pe \<in> set pes. pe_shape pe \<Longrightarrow>
   proto_edges_loop pes edges = Inr (edges @ concat (map buildEdges_spec pes))"
proof (induction pes arbitrary: edges)
  case Nil
  then show ?case by simp
next
  case (Cons pe pes)
  then have rest: "\<And>es. proto_edges_loop pes es = Inr (es @ concat (map buildEdges_spec pes))"
    by simp
  from Cons.prems have sh: "pe_shape pe" by simp
  show ?case
  proof (cases pe)
    case None
    then show ?thesis by (simp add: rest pe_falsy_def buildEdges_spec_simps)
  next
    case (Some d)
    with sh show ?thesis
      by (auto simp: rest pe_falsy_def pe_shape_def buildEdges_spec_simps append_edges_Some
               split: option.splits list.splits)
  qed
qed

lemma buildEdges_spec_mentioned:
  "pe \<in> set pes \<Longrightarrow> e \<in> set (buildEdges_spec pe) \<Longrightarrow>
   source e \<in> set (mentioned pes) \<and> target e \<in> set (mentioned pes)"
  by (fastforce simp: buildEdges_spec_def mentioned_def split: option.splits)

text \<open>A dictionary with an original but without the key \<^verbatim>\<open>courses\<close> is outside the
  documented shape: the lookup raises.\<close>

lemma proto_edge_without_courses_key:
  "proto_edges_to_edges [Some \<lparr>pe_original = Some ''COMP2521'', pe_courses = None\<rparr>]
     = Inl (KeyError ''courses'')"
  by (simp add: proto_edges_to_edges_def pe_falsy_def)



text \<open>
  Claim C8. For every sequence of proto-edges of the documented shape, the edges are
  built, and pruning them against all the course codes the proto-edges mention returns
  every edge, unchanged and in the same order.
\<close>

theorem prune_edges_keeps_own_edges:
  assumes "list_all pe_shape pes"
  shows "\<exists>es. proto_edges_to_edges pes = Inr es \<and> prune_edges es (mentioned pes) = es"
proof -
  let ?es = "concat (map buildEdges_spec pes)"
  have "proto_edges_to_edges pes = Inr ?es"
    using assms by (simp add: proto_edges_to_edges_def proto_edges_loop_shape list_all_iff)
  moreover have "prune_edges ?es (mentioned pes) = ?es"
    unfolding prune_edges_def
    by (rule filter_True) (auto dest: buildEdges_spec_mentioned)
  ultimately show ?thesis by blast
qed

theorem prune_edges_keeps_own_edges_witness:
  "list_all pe_shape
     [Some \<lparr>pe_original = Some ''COMP3121'', pe_courses = Some (Some [''COMP2521'', ''COMP1927''])\<rparr>,
      Some \<lparr>pe_original = Some ''COMP2521'', pe_courses = Some (Some [''COMP1511''])\<rparr>] \<and>
   prune_edges [\<lparr>source = ''COMP2521'', target = ''COMP3121''\<rparr>,
                \<lparr>source = ''COMP1927'', target = ''COMP3121''\<rparr>,
                \<lparr>source = ''COMP1511'', target = ''COMP2521''\<rparr>]
               (mentioned [Some \<lparr>pe_original = Some ''COMP3121'',
                                 pe_courses = Some (Some [''COMP2521'', ''COMP1927''])\<rparr>,
                           Some \<lparr>pe_original = Some ''COMP2521'',
                                 pe_courses = Some (Some [''COMP1511''])\<rparr>])
     = [\<lparr>source = ''COMP2521'', target = ''COMP3121''\<rparr>,
        \<lparr>source = ''COMP1927'', target = ''COMP3121''\<rparr>,
        \<lparr>source = ''COMP1511'', target = ''COMP2521''\<rparr>]"
  using prune_edges_keeps_own_edges
    [of "[Some \<lparr>pe_original = Some ''COMP3121'',
                pe_courses = Some (Some [''COMP2521'', ''COMP1927''])\<rparr>,
          Some \<lparr>pe_original = Some ''COMP2521'', pe_courses = Some (Some [''COMP1511''])\<rparr>]"]
  by (simp add: pe_shape_def proto_edges_to_edges_def pe_falsy_def)

subsection \<open>The subgroup resolver\<close>

lemma keys_dict_set: "set (keys (dict_set k v d)) = insert k (set (keys d))"
  by (induction d) (auto simp: keys_def)

lemma keys_dict_union: "set (keys (dict_union d e)) = set (keys d) \<union> fst ` set e"
  unfolding dict_union_def
  by (induction e arbitrary: d) (auto simp: keys_dict_set)

lemma keys_dict_of_items: "set (keys (dict_of_items items)) = fst ` set items"
  unfolding dict_of_items_def using keys_dict_union [of "[]" items] by (simp add: keys_def)

lemma dict_union_Cons: "dict_union d (kv # e) = dict_union (dict_set (fst kv) (snd kv) d) e"
  by (simp add: dict_union_def)

lemma dict_union_Nil: "dict_union d [] = d"
  by (simp add: dict_union_def)

lemma zip_descriptions_enough:
  "index + length cs \<le> length ds \<Longrightarrow>
   zip_descriptions ds index cs acc = Inr (dict_union acc (zip cs (map Str (drop index ds))))"
proof (induction cs arbitrary: index acc)
  case Nil
  then show ?case by (simp add: dict_union_Nil)
next
  case (Cons c cs)
  then have lt: "index < length ds" by simp
  then have "drop index ds = ds ! index # drop (Suc index) ds"
    by (simp add: Cons_nth_drop_Suc)
  with Cons lt show ?case by (simp add: dict_union_Cons)
qed

lemma zip_descriptions_short:
  "cs \<noteq> [] \<Longrightarrow> length ds < index + length cs \<Longrightarrow>
   zip_descriptions ds index cs acc = Inl IndexError"
proof (induction cs arbitrary: index acc)
  case Nil
  then show ?case by simp
next
  case (Cons c cs)
  show ?case
  proof (cases "index < length ds")
    case True
    with Cons.prems have "cs \<noteq> []" "length ds < Suc index + length cs" by auto
    with True Cons.IH show ?thesis by simp
  next
    case False
    then show ?thesis by simp
  qed
qed

lemma zip_take_left: "zip xs (take (length xs) ys) = zip xs ys"
  by (induction xs ys rule: list_induct2') auto

text \<open>
  Claim C6. \<^verbatim>\<open>convert_subgroup_object_to_courses_dict\<close> dispatches three ways. When the
  object contains \<^verbatim>\<open>" or "\<close> and the description is a list (with an entry for every
  code), the result is the dictionary of the codes zipped with the descriptions.
  Otherwise, when the object does not match the course-code pattern, the result is
  whatever the course search yields for the object anchored at the start. Otherwise the
  result is the single entry of the object with its description.
\<close>

theorem convert_subgroup_object_dispatch:
  "(str_in '' or '' object \<and> length (split_or [] object) \<le> length ds \<longrightarrow>
      convert_subgroup_object_to_courses_dict E object (StrList ds)
        = Inr (dict_of_items (zip (split_or [] object) (map Str ds)))) \<and>
   (\<not> (str_in '' or '' object \<and> is_list d) \<and> \<not> re_match_code object \<longrightarrow>
      convert_subgroup_object_to_courses_dict E object d = regex_search E (''^'' @ object)) \<and>
   (\<not> (str_in '' or '' object \<and> is_list d) \<and> re_match_code object \<longrightarrow>
      convert_subgroup_object_to_courses_dict E object d = Inr [(object, d)])"
  by (cases d) (auto simp: is_list_def zip_descriptions_enough dict_of_items_def)

theorem convert_subgroup_object_dispatch_witness:
  "convert_subgroup_object_to_courses_dict example_store ''COMP2521 or COMP2511'' (StrList [''DSA'', ''OOP''])
     = Inr [(''COMP2521'', Str ''DSA''), (''COMP2511'', Str ''OOP'')] \<and>
   convert_subgroup_object_to_courses_dict example_store ''COMP3'' (Str ''Level 3'')
     = Inr [(''COMP3121'', Str ''Algorithms''), (''COMP3821'', Str ''Extended Algorithms'')] \<and>
   convert_subgroup_object_to_courses_dict example_store ''COMP1511'' (Str ''Programming Fundamentals'')
     = Inr [(''COMP1511'', Str ''Programming Fundamentals'')]"
  using convert_subgroup_object_dispatch [of "''COMP2521 or COMP2511''" "[''DSA'', ''OOP'']" example_store "Str ''x''"]
        convert_subgroup_object_dispatch [of "''COMP3''" "[]" example_store "Str ''Level 3''"]
        convert_subgroup_object_dispatch [of "''COMP1511''" "[]" example_store "Str ''Programming Fundamentals''"]
  by (simp add: is_list_def re_match_code_def is_upper_def is_digit_def regex_search_def example_store_def
        dict_of_items_def dict_union_def)

text \<open>
  Claim C9. For an object that contains \<^verbatim>\<open>" or "\<close>: a description list shorter than
  the list of codes makes the function fail with \<^verbatim>\<open>IndexError\<close>; with a longer list
  the surplus descriptions are dropped and the result covers exactly the codes.
\<close>

theorem convert_subgroup_object_length_mismatch:
  assumes "str_in '' or '' object"
  shows "(length ds < length (split_or [] object) \<longrightarrow>
            convert_subgroup_object_to_courses_dict E object (StrList ds) = Inl IndexError) \<and>
         (length (split_or [] object) < length ds \<longrightarrow>
            (\<exists>m. convert_subgroup_object_to_courses_dict E object (StrList ds) = Inr m \<and>
                 m = dict_of_items (zip (split_or [] object)
                                        (map Str (take (length (split_or [] object)) ds))) \<and>
                 set (keys m) = set (split_or [] object)))"
proof (intro conjI impI)
  assume "length ds < length (split_or [] object)"
  then have "split_or [] object \<noteq> []" "length ds < 0 + length (split_or [] object)"
    by auto
  then have "zip_descriptions ds 0 (split_or [] object) [] = Inl IndexError"
    by (rule zip_descriptions_short)
  with assms show "convert_subgroup_object_to_courses_dict E object (StrList ds) = Inl IndexError"
    by simp
next
  let ?cs = "split_or [] object"
  assume long: "length ?cs < length ds"
  have z: "zip ?cs (map Str (take (length ?cs) ds)) = zip ?cs (map Str ds)"
    by (metis length_map take_map zip_take_left)
  have "convert_subgroup_object_to_courses_dict E object (StrList ds)
          = Inr (dict_of_items (zip ?cs (map Str ds)))"
    using assms long by (simp add: zip_descriptions_enough dict_of_items_def)
  moreover have "set (keys (dict_of_items (zip ?cs (map Str ds)))) = set ?cs"
    using long by (simp add: keys_dict_of_items map_fst_zip_take min_def flip: set_map)
  ultimately show "\<exists>m. convert_subgroup_object_to_courses_dict E object (StrList ds) = Inr m \<and>
                 m = dict_of_items (zip ?cs (map Str (take (length ?cs) ds))) \<and>
                 set (keys m) = set ?cs"
    by (simp add: z)
qed

theorem convert_subgroup_object_length_mismatch_witness:
  "str_in '' or '' ''COMP2521 or COMP2511'' \<and>
   convert_subgroup_object_to_courses_dict example_store ''COMP2521 or COMP2511'' (StrList [''DSA''])
     = Inl IndexError \<and>
   convert_subgroup_object_to_courses_dict example_store ''COMP2521 or COMP2511''
       (StrList [''DSA'', ''OOP'', ''Databases''])
     = Inr [(''COMP2521'', Str ''DSA''), (''COMP2511'', Str ''OOP'')]"
  using convert_subgroup_object_length_mismatch [of "''COMP2521 or COMP2511''" "[''DSA'']" example_store]
        convert_subgroup_object_length_mismatch [of "''COMP2521 or COMP2511''" "[''DSA'', ''OOP'', ''Databases'']" example_store]
  by (simp add: dict_of_items_def dict_union_def)

text \<open>The error is not caught on the way up: the reduce passes it on, and the loop over
  the program containers suppresses \<^verbatim>\<open>KeyError\<close> only.\<close>

lemma IndexError_not_suppressed: "suppress_KeyError IndexError structure = Inl IndexError"
  by (simp add: suppress_KeyError_def)

subsection \<open>The structure builder\<close>

lemma add_subgroup_container_eq:
  "add_subgroup_container E s ty c ex =
     (case reduce_courses E ex (container_items c) [] of
        Inl e \<Rightarrow> Inl e
      | Inr cs \<Rightarrow>
         (case map_of s (placed_type ty c) of
            None \<Rightarrow> Inl (KeyError (placed_type ty c))
          | Some g \<Rightarrow>
              Inr (dict_set (placed_type ty c)
                     (g\<lparr>content := dict_set (placed_title c)
                                    (placed_content c (placed_type ty c) cs) (content g)\<rparr>) s,
                   keys cs)))"
  unfolding add_subgroup_container_def container_items_def placed_title_def placed_type_def
    placed_content_def Let_def
  by (rule refl)

text \<open>What the exceptions do: a container never receives a course of the exceptions,
  and the first loop only extends them.\<close>

lemma reduce_courses_avoids_exceptions:
  "reduce_courses E ex items rest = Inr cs \<Longrightarrow> set (keys cs) \<subseteq> set (keys rest) \<union> (UNIV - set ex)"
proof (induction items arbitrary: rest)
  case Nil
  then show ?case by auto
next
  case (Cons item items)
  from Cons.prems obtain m where
    r: "reduce_courses E ex items
          (dict_union rest (dict_of_items (filter (\<lambda>cd. fst cd \<notin> set ex) m))) = Inr cs"
    by (auto split: sum.splits)
  let ?d = "dict_of_items (filter (\<lambda>cd. fst cd \<notin> set ex) m)"
  have "set (keys ?d) \<subseteq> UNIV - set ex"
    by (auto simp: keys_dict_of_items)
  moreover have "set (keys (dict_union rest ?d)) = set (keys rest) \<union> set (keys ?d)"
    using keys_dict_union [of rest ?d] by (simp add: keys_def)
  ultimately show ?case using Cons.IH [OF r] by auto
qed

lemma add_subgroup_container_avoids_exceptions:
  assumes "add_subgroup_container E s ty c ex = Inr r"
  shows "set (snd r) \<inter> set ex = {}"
proof -
  from assms obtain cs where
    cs: "reduce_courses E ex (container_items c) [] = Inr cs" and r: "snd r = keys cs"
    by (auto simp: add_subgroup_container_eq split: sum.splits option.splits)
  from reduce_courses_avoids_exceptions [OF cs] r show ?thesis by (auto simp: keys_def)
qed

lemma add_cores_extends_exceptions:
  "add_cores E ty cs s ex = Inr r \<Longrightarrow> set ex \<subseteq> set (snd r)"
proof (induction cs arbitrary: s ex)
  case Nil
  then show ?case by auto
next
  case (Cons a cs)
  from Cons.prems obtain t where t: "title a = Some t" by (auto split: option.splits)
  show ?case
  proof (cases "str_in ''Core'' t")
    case True
    with Cons.prems t obtain r1 where
      rest: "add_cores E ty cs (fst r1) (ex @ snd r1) = Inr r"
      by (auto split: sum.splits)
    from Cons.IH [OF rest] show ?thesis by auto
  next
    case False
    with Cons.prems t have "add_cores E ty cs s ex = Inr r" by simp
    from Cons.IH [OF this] show ?thesis .
  qed
qed

text \<open>
  Claim C1. For every specialisation that \<^verbatim>\<open>add_specialisation\<close> adds, the containers
  with \<^verbatim>\<open>Core\<close> in the title are processed before the others, in source order, and a
  course code appears in the courses of at most one container of the specialisation,
  the first one processed that has it, because every container is filtered by the
  exceptions and extends them, the non-Core containers as the Core ones.

  The second loop of \<^verbatim>\<open>add_specialisation\<close> drops the courses a container added. In
  the example the Core container comes first and \<^verbatim>\<open>COMP1521\<close> is kept out of the
  later container, but \<^verbatim>\<open>COMP1511\<close> is placed under both elective containers.
\<close>

theorem add_specialisation_repeats_elective_course:
  "add_specialisation example_store [] ''COMPA1'' =
     Inr [(''Major - COMPA1'',
           \<lparr>name = ''Computer Science'',
            content =
              [(''Core Courses'',
                \<lparr>UOC = 12,
                 cc_courses = [(''COMP1521'', Str ''Computer Systems''),
                               (''COMP2521'', Str ''DSA''), (''COMP2511'', Str ''OOP'')],
                 cc_type = ''core'', cc_notes = []\<rparr>),
               (''Electives A'',
                \<lparr>UOC = 6, cc_courses = [(''COMP1511'', Str ''Programming Fundamentals'')],
                 cc_type = ''elective'', cc_notes = []\<rparr>),
               (''Electives B'',
                \<lparr>UOC = 6, cc_courses = [(''COMP1511'', Str ''Programming Fundamentals'')],
                 cc_type = ''elective'', cc_notes = []\<rparr>)]\<rparr>)]"
  by code_simp

text \<open>Without a list of its own, the gen-ed container receives the pool of the program
  without the core courses of the Major and Honours groups, each with its title.\<close>

lemma map_of_dict_set: "map_of (dict_set k v d) = (map_of d)(k \<mapsto> v)"
  by (induction d) auto

lemma gened_dict_result:
  "set cs \<subseteq> set (keys geneds) \<Longrightarrow>
   \<exists>d. gened_dict geneds cs acc = Inr d \<and>
       set (keys d) = set (keys acc) \<union> set cs \<and>
       (\<forall>k \<in> set cs. map_of d k = map_option Str (map_of geneds k)) \<and>
       (\<forall>k. k \<notin> set cs \<longrightarrow> map_of d k = map_of acc k)"
proof (induction cs arbitrary: acc)
  case Nil
  then show ?case by simp
next
  case (Cons c cs)
  then have "c \<in> fst ` set geneds" by (simp add: keys_def)
  then obtain t where t: "map_of geneds c = Some t"
    by (metis domD dom_map_of_conv_image_fst)
  from Cons.prems have sub: "set cs \<subseteq> set (keys geneds)" by simp
  from Cons.IH [OF sub, of "dict_set c (Str t) acc"] obtain d where
    d: "gened_dict geneds cs (dict_set c (Str t) acc) = Inr d"
       "set (keys d) = set (keys (dict_set c (Str t) acc)) \<union> set cs"
       "\<forall>k \<in> set cs. map_of d k = map_option Str (map_of geneds k)"
       "\<forall>k. k \<notin> set cs \<longrightarrow> map_of d k = map_of (dict_set c (Str t) acc) k"
    by blast
  have "gened_dict geneds (c # cs) acc = Inr d"
    using t d(1) by (simp add: dict_get_def)
  moreover have "set (keys d) = set (keys acc) \<union> set (c # cs)"
    using d(2) by (simp add: keys_dict_set)
  moreover have "map_of d c = Some (Str t)"
  proof (cases "c \<in> set cs")
    case True
    with d(3) t show ?thesis by simp
  next
    case False
    with d(4) show ?thesis by (simp add: map_of_dict_set)
  qed
  then have "\<forall>k \<in> set (c # cs). map_of d k = map_option Str (map_of geneds k)"
    using d(3) t by simp
  moreover have "\<forall>k. k \<notin> set (c # cs) \<longrightarrow> map_of d k = map_of acc k"
    using d(4) by (auto simp: map_of_dict_set)
  ultimately show ?case by blast
qed

lemma add_geneds_courses_pool:
  assumes "type_tag c = Some ''gened''" and "course_specs c = None"
    and g: "map_of s ''General'' = Some g"
    and item: "map_of (content g) ''General Education'' = Some item"
    and pool: "genedPureRaw E programCode = Some geneds"
  shows "\<exists>cs. add_geneds_courses E programCode s c = (set_item_courses s g item cs, Inr (keys cs)) \<and>
              set (keys cs) = set (keys geneds) - set (core_courses (set_item_courses s g item [])) \<and>
              (\<forall>k \<in> set (keys cs). map_of cs k = map_option Str (map_of geneds k))"
proof -
  let ?s1 = "set_item_courses s g item []"
  let ?l = "sort_key (set_order E) (remdups (filter (\<lambda>k. k \<notin> set (core_courses ?s1)) (keys geneds)))"
  have l: "set ?l = set (keys geneds) - set (core_courses ?s1)" by auto
  then have "set ?l \<subseteq> set (keys geneds)" by blast
  from gened_dict_result [OF this, of "[]"] obtain cs where
    cs: "gened_dict geneds ?l [] = Inr cs" "set (keys cs) = set ?l"
        "\<forall>k \<in> set ?l. map_of cs k = map_option Str (map_of geneds k)"
    by (auto simp: keys_def)
  have "add_geneds_courses E programCode s c = (set_item_courses s g item cs, Inr (keys cs))"
    using assms cs(1) by (simp add: add_geneds_courses_def get_gen_eds_def Let_def)
  with cs(2,3) l show ?thesis by auto
qed

text \<open>
  Claim C2. For a container of type \<^verbatim>\<open>gened\<close> under the group \<^verbatim>\<open>General\<close>: when the
  container lists its courses, they stay as resolved; otherwise the courses become the
  gen-ed pool of the program without the courses of every container with \<^verbatim>\<open>core\<close> in
  its lowered title in every group with \<^verbatim>\<open>Major\<close> or \<^verbatim>\<open>Honours\<close> in its key.

  In the example the gen-ed container of program 3779 lists \<^verbatim>\<open>ARTS1010\<close>;
  \<^verbatim>\<open>add_geneds_courses\<close> empties the courses before it looks at the list, and they
  stay empty.
\<close>

theorem add_geneds_empties_listed_courses:
  "get_structure example_store ''3779'' None =
     Inr ([(''General'',
            \<lparr>name = ''General Program Requirements'',
             content = [(''General Education'',
                         \<lparr>UOC = 12, cc_courses = [], cc_type = ''gened'', cc_notes = []\<rparr>)]\<rparr>),
           (''Rules'', \<lparr>name = ''General Program Rules'', content = []\<rparr>)], 144)"
  by code_simp

text \<open>The groups of a structure after the specialisations are those of the
  specialisations, so the group \<^verbatim>\<open>Rules\<close> is not among them, and placing a rule
  container fails there; a rule container of the program is placed under
  \<^verbatim>\<open>Rules\<close>.\<close>

lemma add_subgroup_container_keys:
  assumes "add_subgroup_container E s ty c ex = Inr r"
  shows "set (keys (fst r)) = set (keys s)"
proof -
  from assms obtain cs g where
    g: "map_of s (placed_type ty c) = Some g" and
    r: "fst r = dict_set (placed_type ty c)
                  (g\<lparr>content := dict_set (placed_title c)
                       (placed_content c (placed_type ty c) cs) (content g)\<rparr>) s"
    by (auto simp: add_subgroup_container_eq split: sum.splits option.splits)
  from g have "placed_type ty c \<in> set (keys s)"
    by (auto simp: keys_def dest: map_of_SomeD intro: rev_image_eqI)
  with r show ?thesis by (auto simp: keys_dict_set)
qed

lemma add_cores_keys:
  "add_cores E ty cs s ex = Inr r \<Longrightarrow> set (keys (fst r)) = set (keys s)"
proof (induction cs arbitrary: s ex)
  case Nil
  then show ?case by auto
next
  case (Cons a cs)
  from Cons.prems obtain t where t: "title a = Some t" by (auto split: option.splits)
  show ?case
  proof (cases "str_in ''Core'' t")
    case True
    with Cons.prems t obtain r1 where
      r1: "add_subgroup_container E s ty a ex = Inr r1" and
      rest: "add_cores E ty cs (fst r1) (ex @ snd r1) = Inr r"
      by (auto split: sum.splits)
    from Cons.IH [OF rest] add_subgroup_container_keys [OF r1] show ?thesis by simp
  next
    case False
    with Cons.prems t have "add_cores E ty cs s ex = Inr r" by simp
    from Cons.IH [OF this] show ?thesis .
  qed
qed

lemma add_others_keys:
  "add_others E ty cs s ex = Inr s' \<Longrightarrow> set (keys s') = set (keys s)"
proof (induction cs arbitrary: s)
  case Nil
  then show ?case by auto
next
  case (Cons a cs)
  from Cons.prems obtain t where t: "title a = Some t" by (auto split: option.splits)
  show ?case
  proof (cases "str_in ''Core'' t")
    case False
    with Cons.prems t obtain r1 where
      r1: "add_subgroup_container E s ty a ex = Inr r1" and
      rest: "add_others E ty cs (fst r1) ex = Inr s'"
      by (auto split: sum.splits)
    from Cons.IH [OF rest] add_subgroup_container_keys [OF r1] show ?thesis by simp
  next
    case True
    with Cons.prems t have "add_others E ty cs s ex = Inr s'" by simp
    from Cons.IH [OF this] show ?thesis .
  qed
qed

lemma spec_type_not_program_group: "spec_type code \<noteq> ''Rules''" "spec_type code \<noteq> ''General''"
  by (simp_all add: spec_type_def)

lemma add_specialisation_keys:
  assumes "add_specialisation E s code = Inr s'"
  shows "set (keys s') = insert (spec_type code) (set (keys s))"
proof -
  from assms obtain spn r where
    spn: "specialisationsCOL E code = Some spn" and
    r: "add_cores E (spec_type code) (curriculum spn)
          (dict_set (spec_type code) \<lparr>name = spn_name spn, content = []\<rparr> s) [] = Inr r" and
    s': "add_others E (spec_type code) (curriculum spn) (fst r) (snd r) = Inr s'"
    by (auto simp: add_specialisation_def Let_def split: option.splits sum.splits)
  from add_cores_keys [OF r] add_others_keys [OF s'] show ?thesis
    by (simp add: keys_dict_set)
qed

lemma add_each_specialisation_keys:
  "add_each_specialisation E codes s = Inr s' \<Longrightarrow>
   set (keys s') = set (keys s) \<union> spec_type ` set codes"
proof (induction codes arbitrary: s)
  case Nil
  then show ?case by auto
next
  case (Cons m codes)
  from Cons.prems obtain s1 where
    s1: "add_specialisation E s m = Inr s1" and
    rest: "add_each_specialisation E codes s1 = Inr s'"
    by (auto split: sum.splits)
  from Cons.IH [OF rest] add_specialisation_keys [OF s1] show ?case by auto
qed

lemma no_Rules_group_after_specialisations:
  assumes "add_specialisations E [] spec = Inr s"
  shows "map_of s ''Rules'' = None"
proof -
  from assms have "add_each_specialisation E (spec_codes spec) [] = Inr s"
    by (auto simp: add_specialisations_def spec_codes_def split: option.splits if_splits)
  from add_each_specialisation_keys [OF this]
  have k: "set (keys s) = spec_type ` set (spec_codes spec)" by (simp add: keys_def)
  have "''Rules'' \<notin> set (keys s)"
  proof
    assume "''Rules'' \<in> set (keys s)"
    with k obtain code where "spec_type code = ''Rules''" by auto
    with spec_type_not_program_group(1) show False by blast
  qed
  then show ?thesis by (simp add: keys_def map_of_eq_None_iff)
qed

lemma rule_container_without_Rules_group:
  assumes "type_tag c = Some ct" and "str_in ''rule'' ct" and "map_of s ''Rules'' = None"
  shows "\<exists>e. add_subgroup_container E s ty c ex = Inl e"
  using assms by (simp add: add_subgroup_container_eq placed_type_def split: sum.splits)

lemma program_rule_container_under_Rules:
  "get_structure example_store ''3778'' None =
     Inr ([(''General'',
            \<lparr>name = ''General Program Requirements'',
             content = [(''General Education'',
                         \<lparr>UOC = 12,
                          cc_courses = [(''ARTS1010'', Str ''The Life of Words''),
                                        (''COMP1521'', Str ''Computer Systems'')],
                          cc_type = ''gened'', cc_notes = []\<rparr>)]\<rparr>),
           (''Rules'',
            \<lparr>name = ''General Program Rules'',
             content = [(''Limit'',
                         \<lparr>UOC = 0, cc_courses = [], cc_type = ''limit_rule'',
                          cc_notes = ''At most 60 UOC of level 1''\<rparr>)]\<rparr>)], 144)"
  by code_simp

text \<open>
  Claim C3. In every call of \<^verbatim>\<open>get_structure\<close> the groups \<^verbatim>\<open>General\<close> and
  \<^verbatim>\<open>Rules\<close> are each created once, before any container is added to either of them,
  also for a container whose type contains \<^verbatim>\<open>rule\<close>, which is placed under
  \<^verbatim>\<open>Rules\<close> even when it comes from the curriculum of a specialisation.

  The specialisations are added before the two groups are created. In the example the
  specialisation has a rule container: the lookup of \<^verbatim>\<open>structure["Rules"]\<close> raises
  and the call fails.
\<close>

theorem get_structure_specialisation_rule_container:
  "get_structure example_store ''3778'' (Some ''COMPR1'') = Inl (KeyError ''Rules'')"
  by code_simp

text \<open>The error for a program that is not in the store has a fixed detail, which does not
  carry the code.\<close>

theorem get_structure_unknown_program_detail:
  "get_structure example_store ''9999'' None
     = Inl (HTTPException 400 ''Program code was not found'') \<and>
   \<not> str_in ''9999'' ''Program code was not found''"
  by code_simp

text \<open>
  Claim C7, amended. For every program code that is not in the store \<^verbatim>\<open>get_structure\<close>
  fails and returns no structure: with the error of the specialisations when adding
  them fails, and otherwise with the HTTP error 400 whose detail is the fixed text
  \<^verbatim>\<open>Program code was not found\<close>.
\<close>

theorem get_structure_unknown_program:
  "programsCOL E programCode = None \<Longrightarrow>
   (\<exists>e. get_structure E programCode spec = Inl e) \<and>
   (case add_specialisations E [] spec of
      Inl e \<Rightarrow> get_structure E programCode spec = Inl e
    | Inr s \<Rightarrow> get_structure E programCode spec
                = Inl (HTTPException 400 ''Program code was not found''))"
  by (simp add: get_structure_def add_program_code_details_def split: sum.splits)

theorem get_structure_unknown_program_witness:
  "programsCOL example_store ''9999'' = None \<and>
   get_structure example_store ''9999'' (Some ''COMPA1'')
     = Inl (HTTPException 400 ''Program code was not found'')"
proof -
  have a: "programsCOL example_store ''9999'' = None" by code_simp
  have b: "case add_specialisations example_store [] (Some ''COMPA1'') of
             Inl e \<Rightarrow> False | Inr s \<Rightarrow> True" by code_simp
  from get_structure_unknown_program [OF a, of "Some ''COMPA1''"] a b show ?thesis by (auto split: sum.splits)
qed

subsection \<open>The course-list extractor\<close>

lemma rule_in_has_rule: "rule_in t = (case t of PInt n \<Rightarrow> Inl TypeError | _ \<Rightarrow> Inr (has_rule t))"
  by (cases t) auto

lemma skipped_types_ok:
  "types_ok v \<Longrightarrow> skipped v = Inr (\<not> (is_dict v \<and> \<not> rule_typed v))"
  by (cases v) (auto simp: rule_in_has_rule split: option.splits pyval.splits)

lemma search_walk:
  "types_ok v \<Longrightarrow> is_dict v \<Longrightarrow> recursive_course_search v acc = Inr (acc @ course_walk v)"
  "types_ok_items kvs \<Longrightarrow> search_items kvs acc = Inr (acc @ course_walk_items kvs)"
proof (induction v acc and kvs acc rule: recursive_course_search_search_items.induct)
  case (6 k v rest courses)
  from "6.prems" have ok: "types_ok v" "types_ok_items rest" by simp_all
  show ?case
  proof (cases "is_dict v \<and> \<not> rule_typed v")
    case True
    with ok have sk: "skipped v = Inr False" by (simp add: skipped_types_ok)
    let ?c1 = "if str_in ''courses'' k then courses @ dict_keys v else courses"
    have h: "recursive_course_search v ?c1 = Inr (?c1 @ course_walk v)"
      using "6.IH"(2) [OF sk _ ok(1)] True by simp
    have "search_items rest (?c1 @ course_walk v)
            = Inr ((?c1 @ course_walk v) @ course_walk_items rest)"
      using "6.IH"(3) [OF sk _ h ok(2)] by simp
    with h show ?thesis using sk True by simp
  next
    case False
    with ok have sk: "skipped v = Inr True" by (simp add: skipped_types_ok)
    have "search_items rest courses = Inr (courses @ course_walk_items rest)"
      using "6.IH"(1) [OF sk _ ok(2)] by simp
    moreover from False
    have "course_walk_items ((k, v) # rest) = course_walk_items rest" by auto
    ultimately show ?thesis using sk by simp
  qed
qed simp_all

lemma course_walk_items_append:
  "course_walk_items (kvs @ kvs') = course_walk_items kvs @ course_walk_items kvs'"
  by (induction kvs) auto

lemma types_ok_items_append:
  "types_ok_items (kvs @ kvs') = (types_ok_items kvs \<and> types_ok_items kvs')"
  by (induction kvs) auto

lemma is_dict_py_description [simp]: "\<not> is_dict (py_description d)"
  by (cases d) auto

lemma types_ok_py_description [simp]: "types_ok (py_description d)"
  by (cases d) auto

lemma py_description_not_int [simp]: "py_description d \<noteq> PInt n"
  by (cases d) auto

lemma types_ok_courses: "types_ok_items (map (\<lambda>cd. (fst cd, py_description (snd cd))) cs)"
  by (induction cs) auto

lemma walk_courses: "course_walk_items (map (\<lambda>cd. (fst cd, py_description (snd cd))) cs) = []"
  by (induction cs) auto

lemma map_of_courses_type:
  "map_of (map (\<lambda>cd. (fst cd, py_description (snd cd))) cs) k \<noteq> Some (PInt n)"
  by (induction cs) auto

lemma types_ok_py_content: "types_ok (py_content cc)"
  using map_of_courses_type [of "cc_courses cc" "''type''"]
  by (auto simp: py_content_def types_ok_courses split: option.splits pyval.splits)

lemma py_content_not_int [simp]: "py_content cc \<noteq> PInt n"
  by (simp add: py_content_def)

lemma types_ok_contents: "types_ok_items (map (\<lambda>tc. (fst tc, py_content (snd tc))) cs)"
  by (induction cs) (auto simp: types_ok_py_content)

lemma map_of_contents_type:
  "map_of (map (\<lambda>tc. (fst tc, py_content (snd tc))) cs) k \<noteq> Some (PInt n)"
  by (induction cs) auto

lemma types_ok_py_group: "types_ok (py_group g)"
  using map_of_contents_type [of "content g" "''type''"]
  by (auto simp: py_group_def types_ok_contents split: option.splits pyval.splits)

lemma types_ok_groups: "types_ok_items (map (\<lambda>kg. (fst kg, py_group (snd kg))) s)"
  by (induction s) (auto simp: types_ok_py_group)

lemma py_group_not_int [simp]: "py_group g \<noteq> PInt n"
  by (simp add: py_group_def)

lemma map_of_groups_type:
  "map_of (map (\<lambda>kg. (fst kg, py_group (snd kg))) s) k \<noteq> Some (PInt n)"
  by (induction s) auto

lemma types_ok_py_structure: "types_ok (py_structure s)"
  using map_of_groups_type [of s "''type''"]
  by (auto simp: py_structure_def types_ok_groups split: option.splits pyval.splits)

text \<open>On a title that contains \<^verbatim>\<open>courses\<close> the function takes the field names of the
  container and still walks into it, where the specification's walk stops.\<close>

theorem course_list_walks_below_courses_key:
  "course_list_from_structure (py_structure titled_courses)
     = Inr [''UOC'', ''courses'', ''type'', ''notes'', ''COMP1511''] \<and>
   extract_spec (py_structure titled_courses) = [''UOC'', ''courses'', ''type'', ''notes'']"
  by code_simp

text \<open>
  Claim C5, amended. On every structure \<^verbatim>\<open>course_list_from_structure\<close> returns the keys
  found by a depth-first walk in insertion order that leaves out every mapping value
  whose \<^verbatim>\<open>type\<close> field contains \<^verbatim>\<open>rule\<close> and, at a key that contains
  \<^verbatim>\<open>courses\<close>, takes every key of the value and then walks into the value as into any
  other. The list of a structure is the concatenation of the lists of its parts, so a
  code under several containers occurs once for each.
\<close>

theorem course_list_from_structure_walk:
  "course_list_from_structure (py_structure s) = Inr (course_walk (py_structure s)) \<and>
   course_walk (py_structure (s @ s')) = course_walk (py_structure s) @ course_walk (py_structure s')"
proof
  have "is_dict (py_structure s)" by (simp add: py_structure_def)
  with search_walk(1) [OF types_ok_py_structure, of s "[]"]
  show "course_list_from_structure (py_structure s) = Inr (course_walk (py_structure s))"
    by (simp add: course_list_from_structure_def)
next
  show "course_walk (py_structure (s @ s')) = course_walk (py_structure s) @ course_walk (py_structure s')"
    by (simp add: py_structure_def course_walk_items_append)
qed

subsection \<open>The course-list route\<close>

lemma walk_py_content: "set (course_walk (py_content cc)) \<subseteq> set (keys (cc_courses cc))"
  by (auto simp: py_content_def walk_courses keys_def)

lemma dict_keys_py_content: "dict_keys (py_content cc) = [''UOC'', ''courses'', ''type'', ''notes'']"
  by (simp add: py_content_def keys_def)

lemma walk_py_contents:
  "set (course_walk_items (map (\<lambda>tc. (fst tc, py_content (snd tc))) cs))
     \<subseteq> set field_names \<union> set (concat (map (\<lambda>tc. keys (cc_courses (snd tc))) cs))"
proof (induction cs)
  case Nil
  then show ?case by simp
next
  case (Cons tc cs)
  have "set (dict_keys (py_content (snd tc))) \<subseteq> set field_names"
    by (simp add: dict_keys_py_content field_names_def)
  with Cons walk_py_content [of "snd tc"] show ?case by auto
qed

lemma walk_py_group: "set (course_walk (py_group g)) \<subseteq> set field_names \<union> set (group_courses g)"
  using walk_py_contents [of "content g"]
  by (auto simp: py_group_def group_courses_def)

lemma dict_keys_py_group: "dict_keys (py_group g) = [''name'', ''content'']"
  by (simp add: py_group_def keys_def)

lemma walk_py_groups:
  "set (course_walk_items (map (\<lambda>kg. (fst kg, py_group (snd kg))) s))
     \<subseteq> set field_names \<union> set (all_courses s)"
proof (induction s)
  case Nil
  then show ?case by simp
next
  case (Cons kg s)
  have "set (dict_keys (py_group (snd kg))) \<subseteq> set field_names"
    by (simp add: dict_keys_py_group field_names_def)
  with Cons walk_py_group [of "snd kg"] show ?case by (auto simp: all_courses_def)
qed

lemma walk_py_structure:
  "set (course_walk (py_structure s)) \<subseteq> set field_names \<union> set (all_courses s)"
  using walk_py_groups [of s] by (simp add: py_structure_def)

lemma set_dict_set: "set (dict_set k v d) \<subseteq> insert (k, v) (set d)"
  by (induction d) auto

lemma all_courses_dict_set:
  "set (all_courses (dict_set k g s)) \<subseteq> set (all_courses s) \<union> set (group_courses g)"
  using set_dict_set [of k g s] by (fastforce simp: all_courses_def)

lemma group_courses_dict_set:
  "set (group_courses (g\<lparr>content := dict_set t cc (content g)\<rparr>))
     \<subseteq> set (group_courses g) \<union> set (keys (cc_courses cc))"
  using set_dict_set [of t cc "content g"] by (fastforce simp: group_courses_def)

lemma group_courses_in_all:
  "map_of s k = Some g \<Longrightarrow> set (group_courses g) \<subseteq> set (all_courses s)"
  by (auto simp: all_courses_def dest!: map_of_SomeD)

lemma keys_filter: "set (keys (filter P m)) \<subseteq> set (keys m)"
  by (auto simp: keys_def)

lemma reduce_courses_keys:
  "reduce_courses E ex items rest = Inr cs \<Longrightarrow>
   set (keys cs) \<subseteq> set (keys rest) \<union>
     set (concat (map (\<lambda>item. case convert_subgroup_object_to_courses_dict E (fst item) (snd item) of
                                 Inl e \<Rightarrow> [] | Inr m \<Rightarrow> keys m) items))"
proof (induction items arbitrary: rest)
  case Nil
  then show ?case by simp
next
  case (Cons item items)
  from Cons.prems obtain m where
    m: "convert_subgroup_object_to_courses_dict E (fst item) (snd item) = Inr m" and
    r: "reduce_courses E ex items
          (dict_union rest (dict_of_items (filter (\<lambda>cd. fst cd \<notin> set ex) m))) = Inr cs"
    by (auto split: sum.splits)
  let ?d = "dict_of_items (filter (\<lambda>cd. fst cd \<notin> set ex) m)"
  have "set (keys ?d) \<subseteq> set (keys m)"
    using keys_filter [of "\<lambda>cd. fst cd \<notin> set ex" m]
    by (simp add: keys_dict_of_items) (simp add: keys_def)
  moreover have "set (keys (dict_union rest ?d)) = set (keys rest) \<union> set (keys ?d)"
    using keys_dict_union [of rest ?d] by (simp add: keys_def)
  ultimately have "set (keys (dict_union rest ?d)) \<subseteq> set (keys rest) \<union> set (keys m)"
    by auto
  with Cons.IH [OF r] m show ?case by auto
qed

lemma add_subgroup_container_courses:
  assumes "add_subgroup_container E s ty c ex = Inr r"
  shows "set (all_courses (fst r)) \<subseteq> set (all_courses s) \<union> set (resolved_courses E c)"
proof -
  let ?ty = "placed_type ty c"
  from assms obtain cs g where
    cs: "reduce_courses E ex (container_items c) [] = Inr cs" and
    g: "map_of s ?ty = Some g" and
    r: "fst r = dict_set ?ty (g\<lparr>content := dict_set (placed_title c)
                                             (placed_content c ?ty cs) (content g)\<rparr>) s"
    by (auto simp: add_subgroup_container_eq split: sum.splits option.splits)
  let ?cc = "placed_content c ?ty cs"
  have cc: "cc_courses ?cc = cs" by (simp add: placed_content_def)
  have "set (keys cs) \<subseteq> set (resolved_courses E c)"
    using reduce_courses_keys [OF cs] by (simp add: resolved_courses_def container_items_def keys_def)
  with all_courses_dict_set [of ?ty "g\<lparr>content := dict_set (placed_title c) ?cc (content g)\<rparr>" s]
       group_courses_dict_set [where g = g and t = "placed_title c" and cc = ?cc] group_courses_in_all [OF g] cc r
  show ?thesis by auto
qed

lemma add_cores_courses:
  "add_cores E ty cs s ex = Inr r \<Longrightarrow>
   set (all_courses (fst r)) \<subseteq> set (all_courses s) \<union> set (concat (map (resolved_courses E) cs))"
proof (induction cs arbitrary: s ex)
  case Nil
  then show ?case by auto
next
  case (Cons a cs)
  from Cons.prems obtain t where t: "title a = Some t" by (auto split: option.splits)
  show ?case
  proof (cases "str_in ''Core'' t")
    case True
    with Cons.prems t obtain r1 where
      r1: "add_subgroup_container E s ty a ex = Inr r1" and
      rest: "add_cores E ty cs (fst r1) (ex @ snd r1) = Inr r"
      by (auto split: sum.splits)
    from Cons.IH [OF rest] add_subgroup_container_courses [OF r1] show ?thesis by auto
  next
    case False
    with Cons.prems t have "add_cores E ty cs s ex = Inr r" by simp
    from Cons.IH [OF this] show ?thesis by auto
  qed
qed

lemma add_others_courses:
  "add_others E ty cs s ex = Inr s' \<Longrightarrow>
   set (all_courses s') \<subseteq> set (all_courses s) \<union> set (concat (map (resolved_courses E) cs))"
proof (induction cs arbitrary: s)
  case Nil
  then show ?case by auto
next
  case (Cons a cs)
  from Cons.prems obtain t where t: "title a = Some t" by (auto split: option.splits)
  show ?case
  proof (cases "str_in ''Core'' t")
    case False
    with Cons.prems t obtain r1 where
      r1: "add_subgroup_container E s ty a ex = Inr r1" and
      rest: "add_others E ty cs (fst r1) ex = Inr s'"
      by (auto split: sum.splits)
    from Cons.IH [OF rest] add_subgroup_container_courses [OF r1] show ?thesis by auto
  next
    case True
    with Cons.prems t have "add_others E ty cs s ex = Inr s'" by simp
    from Cons.IH [OF this] show ?thesis by auto
  qed
qed

lemma add_specialisation_courses:
  assumes "add_specialisation E s code = Inr s'"
  shows "set (all_courses s') \<subseteq> set (all_courses s) \<union>
           set (case specialisationsCOL E code of
                  None \<Rightarrow> []
                | Some spn \<Rightarrow> concat (map (resolved_courses E) (curriculum spn)))"
proof -
  from assms obtain spn r where
    spn: "specialisationsCOL E code = Some spn" and
    r: "add_cores E (spec_type code) (curriculum spn)
          (dict_set (spec_type code) \<lparr>name = spn_name spn, content = []\<rparr> s) [] = Inr r" and
    s': "add_others E (spec_type code) (curriculum spn) (fst r) (snd r) = Inr s'"
    by (auto simp: add_specialisation_def Let_def split: option.splits sum.splits)
  have "set (all_courses (dict_set (spec_type code) \<lparr>name = spn_name spn, content = []\<rparr> s))
          \<subseteq> set (all_courses s)"
    using all_courses_dict_set [of "spec_type code" "\<lparr>name = spn_name spn, content = []\<rparr>" s]
    by (simp add: group_courses_def)
  with add_cores_courses [OF r] add_others_courses [OF s'] spn show ?thesis by auto
qed

lemma add_each_specialisation_courses:
  "add_each_specialisation E codes s = Inr s' \<Longrightarrow>
   set (all_courses s') \<subseteq> set (all_courses s) \<union>
     set (concat (map (\<lambda>code. case specialisationsCOL E code of
                                 None \<Rightarrow> []
                               | Some spn \<Rightarrow> concat (map (resolved_courses E) (curriculum spn)))
                      codes))"
proof (induction codes arbitrary: s)
  case Nil
  then show ?case by auto
next
  case (Cons m codes)
  from Cons.prems obtain s1 where
    s1: "add_specialisation E s m = Inr s1" and
    rest: "add_each_specialisation E codes s1 = Inr s'"
    by (auto split: sum.splits)
  from Cons.IH [OF rest] add_specialisation_courses [OF s1] show ?case by auto
qed

lemma add_specialisations_courses:
  assumes "add_specialisations E [] spec = Inr s"
  shows "set (all_courses s) \<subseteq> set (specialisation_courses E spec)"
proof -
  from assms have "add_each_specialisation E (spec_codes spec) [] = Inr s"
    by (auto simp: add_specialisations_def spec_codes_def split: option.splits if_splits)
  from add_each_specialisation_courses [OF this] show ?thesis
    by (simp add: specialisation_courses_def all_courses_def)
qed

lemma add_program_code_details_courses:
  assumes "add_program_code_details E s programCode = Inr r"
  shows "set (all_courses (fst r)) \<subseteq> set (all_courses s)"
proof -
  let ?g = "\<lparr>name = ''General Program Requirements'', content = []\<rparr>"
  let ?r = "\<lparr>name = ''General Program Rules'', content = []\<rparr>"
  from assms have r: "fst r = dict_set ''Rules'' ?r (dict_set ''General'' ?g s)"
    by (auto simp: add_program_code_details_def split: option.splits)
  from all_courses_dict_set [of "''Rules''" ?r "dict_set ''General'' ?g s"]
       all_courses_dict_set [of "''General''" ?g s] r
  show ?thesis by (auto simp: group_courses_def)
qed

text \<open>
  Claim C10. \<^verbatim>\<open>get_structure_course_list\<close> builds its structure from the
  specialisations and the program details only, without the gen-ed step: a course code
  that the resolver yields for no container of the requested specialisations (and that
  is not a field name) never occurs in the returned list, whatever the gen-ed pool and
  the program containers hold, provided the manual fixes of the program add no course.
\<close>

theorem get_structure_course_list_only_specialisations:
  assumes mf: "fixes_add_no_course E programCode"
    and c: "c \<notin> set field_names" "c \<notin> set (specialisation_courses E spec)"
    and cl: "get_structure_course_list E programCode spec = Inr cl"
  shows "c \<notin> set cl"
proof -
  from cl obtain s1 r s3 where
    s1: "add_specialisations E [] spec = Inr s1" and
    r: "add_program_code_details E s1 programCode = Inr r" and
    s3: "apply_manual_fixes E (fst r) programCode = Inr s3" and
    l: "course_list_from_structure (py_structure s3) = Inr cl"
    by (auto simp: get_structure_course_list_def split: sum.splits)
  have "course_list_from_structure (py_structure s3) = Inr (course_walk (py_structure s3))"
    using search_walk(1) [OF types_ok_py_structure, of s3 "[]"]
    by (simp add: course_list_from_structure_def py_structure_def)
  with l have "set cl \<subseteq> set field_names \<union> set (all_courses s3)"
    using walk_py_structure [of s3] by simp
  moreover have "set (all_courses s3) \<subseteq> set (all_courses (fst r))"
    using mf s3 by (simp add: fixes_add_no_course_def)
  ultimately have "set cl \<subseteq> set field_names \<union> set (specialisation_courses E spec)"
    using add_program_code_details_courses [OF r] add_specialisations_courses [OF s1] by blast
  with c show ?thesis by blast
qed

text \<open>In the example \<^verbatim>\<open>ARTS1010\<close> is in the gen-ed pool only: \<^verbatim>\<open>get_structure\<close> has it
  under General Education, the course list does not.\<close>

theorem get_structure_course_list_only_specialisations_witness:
  "fixes_add_no_course example_store ''3778'' \<and>
   ''ARTS1010'' \<notin> set field_names \<and>
   ''ARTS1010'' \<notin> set (specialisation_courses example_store (Some ''COMPA1'')) \<and>
   get_structure_course_list example_store ''3778'' (Some ''COMPA1'')
     = Inr [''COMP1521'', ''COMP2521'', ''COMP2511'', ''COMP1511'', ''COMP1511''] \<and>
   ''ARTS1010'' \<notin> set [''COMP1521'', ''COMP2521'', ''COMP2511'', ''COMP1511'', ''COMP1511''] \<and>
   (case get_structure example_store ''3778'' (Some ''COMPA1'') of
      Inl e \<Rightarrow> None
    | Inr r \<Rightarrow> map_option (\<lambda>g. map_option cc_courses (map_of (content g) ''General Education''))
                          (map_of (fst r) ''General''))
     = Some (Some [(''ARTS1010'', Str ''The Life of Words'')])"
proof -
  have h1: "fixes_add_no_course example_store ''3778''"
    by (simp add: fixes_add_no_course_def example_store_def)
  have h2: "''ARTS1010'' \<notin> set field_names"
    by (simp add: field_names_def)
  have h3: "''ARTS1010'' \<notin> set (specialisation_courses example_store (Some ''COMPA1''))"
    by code_simp
  have h4: "get_structure_course_list example_store ''3778'' (Some ''COMPA1'')
              = Inr [''COMP1521'', ''COMP2521'', ''COMP2511'', ''COMP1511'', ''COMP1511'']"
    by code_simp
  have h5: "(case get_structure example_store ''3778'' (Some ''COMPA1'') of
      Inl e \<Rightarrow> None
    | Inr r \<Rightarrow> map_option (\<lambda>g. map_option cc_courses (map_of (content g) ''General Education''))
                          (map_of (fst r) ''General''))
     = Some (Some [(''ARTS1010'', Str ''The Life of Words'')])"
    by code_simp
  from get_structure_course_list_only_specialisations [OF h1 h2 h3 h4] h1 h2 h3 h4 h5 show ?thesis by blast
qed

end
